theory Spec2Isabelle
  imports Complex_Main "HOL-Library.Word" "HOL-Library.Sublist" "HOL-Library.Multiset"
begin

section \<open>ResumeHunter: the indexing/scoring service (api6.py) and the client (app6.py)\<close>

text \<open>
  Python strings are modelled as \<^typ>\<open>string\<close>: a list of characters whose code points are
  below 256. Python integers are \<^typ>\<open>int\<close>; the counter \<open>global_index\<close>, which starts at 0
  and is only ever incremented, is a \<^typ>\<open>nat\<close>. A function that can raise returns
  \<open>py_exc + 'a\<close>, with \<open>Inl\<close> the exception. The calls to the embedding model, the vector
  store, the generative model, the file system, the PDF reader and the HTTP client are
  parameters. Console output (\<open>print\<close>) and the messages of \<open>st.error\<close> are left out; the
  page the submit handler shows is its result.
\<close>

subsection \<open>Exceptions\<close>

text \<open>
  An exception is a value: its class name and its message (\<open>str(e)\<close>). \<open>Exc\<close> is an
  instance of \<open>Exception\<close>; \<open>BaseExc\<close> is an instance of \<open>BaseException\<close> only
  (\<open>KeyboardInterrupt\<close>, \<open>SystemExit\<close>), which \<open>except Exception\<close> lets through and a
  bare \<open>except:\<close> catches.
\<close>

datatype py_exc = Exc string string | BaseExc string string

fun str_exc :: "py_exc \<Rightarrow> string" where
  "str_exc (Exc cls msg) = msg"
| "str_exc (BaseExc cls msg) = msg"

fun is_Exception :: "py_exc \<Rightarrow> bool" where
  "is_Exception (Exc cls msg) = True"
| "is_Exception (BaseExc cls msg) = False"

subsection \<open>Decimal rendering of the counter\<close>

definition digit_char :: "nat \<Rightarrow> char" where
  "digit_char d = char_of (48 + d)"

text \<open>\<open>str(n)\<close> for a non-negative integer, as the f-string \<open>f"{global_index}"\<close> renders it.\<close>

function str_nat :: "nat \<Rightarrow> string" where
  "str_nat n = (if n < 10 then [digit_char n] else str_nat (n div 10) @ [digit_char (n mod 10)])"
  by pat_completeness auto
termination
  by (relation "measure id") auto

declare str_nat.simps [simp del]

subsection \<open>The flattening pipeline: \<open>prepare_jsons_for_rag\<close>\<close>

text \<open>
  A job object as \<open>json.load\<close> returns it: the keys \<open>slug\<close> and \<open>recommendations\<close> may be
  absent (\<open>job.get\<close> with a default). The slug is the text the f-string renders for the value
  stored under \<open>slug\<close>. A recommendation is opaque; \<open>json.dumps\<close> is the parameter \<open>dumps\<close>.
\<close>

record 'r job =
  slug :: "string option"
  recommendations :: "'r list option"

record item =
  item_id :: string
  line :: string
  filename :: string
  page_number :: string

text \<open>\<open>os.path.basename\<close>: the part of the path after the last slash.\<close>

definition basename :: "string \<Rightarrow> string" where
  "basename p = rev (takeWhile (\<lambda>c. c \<noteq> CHR ''/'') (rev p))"

text \<open>The innermost loop, \<open>for rec in job.get("recommendations", [])\<close>; the state is
  \<open>(items, global_index)\<close>.\<close>

fun rec_loop :: "('r \<Rightarrow> string) \<Rightarrow> string \<Rightarrow> string \<Rightarrow> 'r list \<Rightarrow> item list \<times> nat \<Rightarrow> item list \<times> nat" where
  "rec_loop dumps fname slg [] st = st"
| "rec_loop dumps fname slg (r # rs) (items, global_index) =
     rec_loop dumps fname slg rs
       (items @ [\<lparr>item_id = slg @ ''-'' @ str_nat global_index, line = dumps r,
                  filename = fname, page_number = ''1''\<rparr>],
        global_index + 1)"

text \<open>\<open>for job in job_data\<close>: the default slug is built from the counter as it stands when
  the job is reached.\<close>

fun job_loop :: "('r \<Rightarrow> string) \<Rightarrow> string \<Rightarrow> 'r job list \<Rightarrow> item list \<times> nat \<Rightarrow> item list \<times> nat" where
  "job_loop dumps fname [] st = st"
| "job_loop dumps fname (j # js) (items, global_index) =
     (let slg = (case slug j of Some s \<Rightarrow> s | None \<Rightarrow> ''job-'' @ str_nat global_index);
          recs = (case recommendations j of Some rs \<Rightarrow> rs | None \<Rightarrow> [])
      in job_loop dumps fname js (rec_loop dumps fname slg recs (items, global_index)))"

text \<open>\<open>for json_path in json_paths\<close>: \<open>load\<close> is \<open>open\<close> followed by \<open>json.load\<close>; its
  exception (no such file, invalid JSON) is not caught and ends the run.\<close>

fun file_loop :: "(string \<Rightarrow> py_exc + 'r job list) \<Rightarrow> ('r \<Rightarrow> string) \<Rightarrow> string list \<Rightarrow>
    item list \<times> nat \<Rightarrow> py_exc + item list \<times> nat" where
  "file_loop load dumps [] st = Inr st"
| "file_loop load dumps (json_path # ps) st =
     (case load json_path of
        Inl e \<Rightarrow> Inl e
      | Inr job_data \<Rightarrow> file_loop load dumps ps (job_loop dumps (basename json_path) job_data st))"

text \<open>The result is the list stored under the key \<open>items\<close>.\<close>

definition prepare_jsons_for_rag :: "(string \<Rightarrow> py_exc + 'r job list) \<Rightarrow> ('r \<Rightarrow> string) \<Rightarrow>
    string list \<Rightarrow> py_exc + item list" where
  "prepare_jsons_for_rag load dumps json_paths =
     (case file_loop load dumps json_paths ([], 0) of
        Inl e \<Rightarrow> Inl e
      | Inr (items, global_index) \<Rightarrow> Inr items)"

text \<open>
  The specification's account of the same pipeline. Every recommendation of the whole
  input, in file order, then job order, then recommendation order, with the file name, the job
  and the position of the recommendation inside its job:
\<close>

definition job_recs :: "'r job \<Rightarrow> 'r list" where
  "job_recs j = (case recommendations j of Some rs \<Rightarrow> rs | None \<Rightarrow> [])"

definition job_rows :: "string \<Rightarrow> 'r job \<Rightarrow> (string \<times> 'r job \<times> nat \<times> 'r) list" where
  "job_rows fname j = map (\<lambda>(k, r). (fname, j, k, r)) (enumerate 0 (job_recs j))"

definition file_rows :: "string \<times> 'r job list \<Rightarrow> (string \<times> 'r job \<times> nat \<times> 'r) list" where
  "file_rows = (\<lambda>(fname, jobs). concat (map (job_rows fname) jobs))"

definition all_recs :: "(string \<times> 'r job list) list \<Rightarrow> (string \<times> 'r job \<times> nat \<times> 'r) list" where
  "all_recs files = concat (map file_rows files)"

text \<open>The item of the recommendation that the counter value \<open>i\<close> meets at position \<open>k\<close>
  of its job: the counter stood at \<open>i - k\<close> when the job was reached.\<close>

definition spec_item :: "('r \<Rightarrow> string) \<Rightarrow> nat \<times> string \<times> 'r job \<times> nat \<times> 'r \<Rightarrow> item" where
  "spec_item dumps = (\<lambda>(i, fname, j, k, r).
     \<lparr>item_id = (case slug j of Some s \<Rightarrow> s | None \<Rightarrow> ''job-'' @ str_nat (i - k)) @ ''-'' @ str_nat i,
      line = dumps r, filename = fname, page_number = ''1''\<rparr>)"

definition spec_items :: "('r \<Rightarrow> string) \<Rightarrow> (string \<times> 'r job list) list \<Rightarrow> item list" where
  "spec_items dumps files = map (spec_item dumps) (enumerate 0 (all_recs files))"

text \<open>The counter that an identifier ends with: the text after its last hyphen.\<close>

definition id_suffix :: "string \<Rightarrow> string" where
  "id_suffix s = rev (takeWhile (\<lambda>c. c \<noteq> CHR ''-'') (rev s))"

subsection \<open>Reading a decimal number\<close>

definition digit_val :: "char \<Rightarrow> nat" where
  "digit_val c = of_char c - 48"

definition decimal_value :: "string \<Rightarrow> nat" where
  "decimal_value ds = foldl (\<lambda>a c. 10 * a + digit_val c) 0 ds"

subsection \<open>\<open>generate_hash\<close>\<close>

text \<open>
  \<open>text.encode()\<close> is UTF-8: one byte for a code point below 128, two bytes for the others
  below 256. \<open>hashlib.sha256\<close> is a parameter: any function from byte strings to 256-bit
  digests. \<open>hexdigest\<close> writes the digest as 64 lower-case hexadecimal digits, the most
  significant first.
\<close>

definition utf8_encode :: "string \<Rightarrow> 8 word list" where
  "utf8_encode s = concat (map (\<lambda>c. let n = (of_char c :: nat) in
      if n < 128 then [of_nat n] else [of_nat (192 + n div 64), of_nat (128 + n mod 64)]) s)"

definition hex_digit :: "nat \<Rightarrow> char" where
  "hex_digit d = (if d < 10 then char_of (48 + d) else char_of (87 + d))"

definition hexdigest :: "256 word \<Rightarrow> string" where
  "hexdigest w = map (\<lambda>k. hex_digit (unat (drop_bit (4 * (63 - k)) w) mod 16)) [0..<64]"

definition generate_hash :: "(8 word list \<Rightarrow> 256 word) \<Rightarrow> string \<Rightarrow> string" where
  "generate_hash sha256 text = hexdigest (sha256 (utf8_encode text))"

subsection \<open>The external services and the batched upsert: \<open>upsert_documents\<close>\<close>

text \<open>
  A vector record as \<open>upsert_documents\<close> builds it; \<open>metadata_text\<close> is the value of
  \<open>metadata["text"]\<close>. The embedding is opaque (\<open>'e\<close>).
\<close>

record 'e vector =
  vector_id :: string
  vector_values :: 'e
  metadata_text :: string

text \<open>The calls made to the external services, in the order they are made.\<close>

datatype 'e event =
  Encode string
| Upsert "'e vector list"
| DeleteAll
| Generate string

text \<open>
  The services the module talks to: \<open>embedding_model.encode(...).tolist()\<close>,
  \<open>index.upsert(vectors=...)\<close>, \<open>index.delete(delete_all=True)\<close> on a store in state \<open>'s\<close>,
  and \<open>generation_model.generate_content(prompt).text\<close>. Each one may raise.
\<close>

record ('s, 'e) services =
  encode :: "string \<Rightarrow> py_exc + 'e"
  index_upsert :: "'s \<Rightarrow> 'e vector list \<Rightarrow> py_exc + 's"
  index_delete :: "'s \<Rightarrow> py_exc + 's"
  generate_content :: "string \<Rightarrow> py_exc + string"

text \<open>The first loop of \<open>upsert_documents\<close>: one embedding per document, appended to
  \<open>vectors\<close>.\<close>

fun encode_loop :: "(string \<Rightarrow> py_exc + 'e) \<Rightarrow> item list \<Rightarrow> 'e vector list \<Rightarrow> 'e event list \<Rightarrow>
    'e event list \<times> (py_exc + 'e vector list)" where
  "encode_loop enc [] vectors tr = (tr, Inr vectors)"
| "encode_loop enc (doc # docs) vectors tr =
     (case enc (line doc) of
        Inl e \<Rightarrow> (tr @ [Encode (line doc)], Inl e)
      | Inr embedding \<Rightarrow>
          encode_loop enc docs
            (vectors @ [\<lparr>vector_id = item_id doc, vector_values = embedding,
                         metadata_text = line doc\<rparr>])
            (tr @ [Encode (line doc)]))"

text \<open>The second loop, \<open>for i in range(0, len(vectors), batch_size)\<close> with a positive step
  \<open>b\<close>; \<open>vectors[i:i+batch_size]\<close> is \<open>take b (drop i vectors)\<close>.\<close>

function batch_loop :: "('s \<Rightarrow> 'e vector list \<Rightarrow> py_exc + 's) \<Rightarrow> 'e vector list \<Rightarrow> nat \<Rightarrow> nat \<Rightarrow>
    's \<times> 'e event list \<Rightarrow> ('s \<times> 'e event list) \<times> (py_exc + unit)" where
  "batch_loop ups vectors b i (s, tr) =
     (if 0 < b \<and> i < length vectors then
        (case ups s (take b (drop i vectors)) of
           Inl e \<Rightarrow> ((s, tr @ [Upsert (take b (drop i vectors))]), Inl e)
         | Inr s' \<Rightarrow> batch_loop ups vectors b (i + b) (s', tr @ [Upsert (take b (drop i vectors))]))
      else ((s, tr), Inr ()))"
  by pat_completeness auto
termination
  by (relation "measure (\<lambda>(ups, vectors, b, i, st). length vectors - i)") auto

declare batch_loop.simps [simp del]

text \<open>\<open>upsert_documents(documents, batch_size)\<close>. A step of 0 makes \<open>range\<close> raise; a
  negative step gives the empty range.\<close>

definition upsert_documents :: "('s, 'e) services \<Rightarrow> item list \<Rightarrow> int \<Rightarrow> 's \<times> 'e event list \<Rightarrow>
    ('s \<times> 'e event list) \<times> (py_exc + string list)" where
  "upsert_documents svc documents batch_size w =
     (case w of (s, tr) \<Rightarrow>
      (case encode_loop (encode svc) documents [] tr of
         (tr1, Inl e) \<Rightarrow> ((s, tr1), Inl e)
       | (tr1, Inr vectors) \<Rightarrow>
           if batch_size = 0 then
             ((s, tr1), Inl (Exc ''ValueError'' ''range() arg 3 must not be zero''))
           else
             (case batch_loop (index_upsert svc) vectors (nat batch_size) 0 (s, tr1) of
                (w', Inl e) \<Rightarrow> (w', Inl e)
              | (w', Inr u) \<Rightarrow> (w', Inr (map item_id documents)))))"

subsection \<open>The endpoints\<close>

datatype jval = JStr string | JList "string list"

type_synonym body = "(string \<times> jval) list"

record http_response =
  status_code :: nat
  content :: body

text \<open>The web framework around a handler: a returned dictionary is sent with status 200,
  an exception that leaves the handler becomes a 500 response.\<close>

definition respond :: "py_exc + body \<Rightarrow> http_response" where
  "respond r = (case r of
      Inr b \<Rightarrow> \<lparr>status_code = 200, content = b\<rparr>
    | Inl e \<Rightarrow> \<lparr>status_code = 500, content = []\<rparr>)"

text \<open>\<open>except Exception as e: return {"error": str(e)}\<close>.\<close>

definition except_Exception :: "py_exc \<Rightarrow> py_exc + body" where
  "except_Exception e = (if is_Exception e then Inr [(''error'', JStr (str_exc e))] else Inl e)"

definition push_docs :: "('s, 'e) services \<Rightarrow> item list \<Rightarrow> 's \<times> 'e event list \<Rightarrow>
    ('s \<times> 'e event list) \<times> (py_exc + body)" where
  "push_docs svc docs w =
     (case upsert_documents svc docs 50 w of
        (w', Inr ids) \<Rightarrow> (w', Inr [(''status'', JStr ''success''), (''inserted_ids'', JList ids)])
      | (w', Inl e) \<Rightarrow> (w', except_Exception e))"

definition ats_prompt :: "string \<Rightarrow> string \<Rightarrow> string" where
  "ats_prompt resume_text job_description =
     ''\<newline>'' @
     ''        You are an ATS (Applicant Tracking System) evaluation AI.\<newline>'' @
     ''\<newline>'' @
     ''        Your behavior rules:\<newline>'' @
     ''        - **ATS Match Score must be between 0 and 100 only.**\<newline>'' @
     ''        - Focus primarily on matching **skills, experiences, and keywords** from the Job Description (JD).\<newline>'' @
     ''        - If the JD **does NOT mention any experience requirement**, prefer candidates with **more overall experience** and award a slightly higher score.\<newline>'' @
     ''        - Never return an ATS score above 100%.\<newline>'' @
     ''\<newline>'' @
     ''        Compare the following Resume and Job Description:\<newline>'' @
     ''\<newline>'' @
     ''        - Resume:\<newline>'' @
     ''        '' @
     resume_text @
     ''\<newline>'' @
     ''\<newline>'' @
     ''        - Job Description:\<newline>'' @
     ''        '' @
     job_description @
     ''\<newline>'' @
     ''\<newline>'' @
     ''        **Your Task:**\<newline>'' @
     ''        1. Assign an **ATS Match Score (0-100)** based on the above rules.\<newline>'' @
     ''        2. Create a detailed table:\<newline>'' @
     ''\<newline>'' @
     ''        | Category | Matched Skills/Keywords | Missing Skills/Keywords | Comments |\<newline>'' @
     ''\<newline>'' @
     ''        Focus points:\<newline>'' @
     ''        - Skills and keywords alignment.\<newline>'' @
     ''        - Relevant experiences mentioned.\<newline>'' @
     ''        - If no experience is specified in JD, reward candidates with greater experience.\<newline>'' @
     ''\<newline>'' @
     ''        **Output format (strictly):**\<newline>'' @
     ''        1. ATS Match Score: __%\<newline>'' @
     ''        2. Table:\<newline>'' @
     ''        ''"

definition api_ats_check :: "('s, 'e) services \<Rightarrow> string \<Rightarrow> string \<Rightarrow> 's \<times> 'e event list \<Rightarrow>
    ('s \<times> 'e event list) \<times> (py_exc + body)" where
  "api_ats_check svc resume_text job_description w =
     (case w of (s, tr) \<Rightarrow>
      (let prompt = ats_prompt resume_text job_description in
       case generate_content svc prompt of
         Inr text \<Rightarrow> ((s, tr @ [Generate prompt]), Inr [(''output'', JStr text)])
       | Inl e \<Rightarrow> ((s, tr @ [Generate prompt]), except_Exception e)))"

definition api_clear_pinecone :: "('s, 'e) services \<Rightarrow> 's \<times> 'e event list \<Rightarrow>
    ('s \<times> 'e event list) \<times> (py_exc + body)" where
  "api_clear_pinecone svc w =
     (case w of (s, tr) \<Rightarrow>
      (case index_delete svc s of
         Inr s' \<Rightarrow> ((s', tr @ [DeleteAll]),
                    Inr [(''status'', JStr ''success''), (''message'', JStr ''Pinecone index cleared.'')])
       | Inl e \<Rightarrow> ((s, tr @ [DeleteAll]), except_Exception e)))"

subsection \<open>The client: score extraction\<close>

text \<open>\<open>str.splitlines()\<close>: the line boundaries among the code points below 256 are
  LF, VT, FF, CR, FS, GS, RS and NEL; CR LF counts as one boundary; the text after the last
  boundary is a line only if it is not empty.\<close>

definition is_linebreak :: "char \<Rightarrow> bool" where
  "is_linebreak c = (c \<in> {CHR 0x0A, CHR 0x0B, CHR 0x0C, CHR 0x0D, CHR 0x1C, CHR 0x1D, CHR 0x1E, CHR 0x85})"

fun splitlines_from :: "string \<Rightarrow> string \<Rightarrow> string list" where
  "splitlines_from cur [] = (if cur = [] then [] else [cur])"
| "splitlines_from cur (c # cs) =
     (if is_linebreak c then
        cur # (case cs of
                 c' # cs' \<Rightarrow> if c = CHR 0x0D \<and> c' = CHR 0x0A then splitlines_from [] cs'
                             else splitlines_from [] cs
               | [] \<Rightarrow> splitlines_from [] cs)
      else splitlines_from (cur @ [c]) cs)"

definition splitlines :: "string \<Rightarrow> string list" where
  "splitlines s = splitlines_from [] s"

text \<open>\<open>needle in hay\<close> for strings.\<close>

fun contains :: "string \<Rightarrow> string \<Rightarrow> bool" where
  "contains needle [] = (needle = [])"
| "contains needle (c # cs) = (prefix needle (c # cs) \<or> contains needle cs)"

text \<open>\<open>str.isdigit\<close> on a code point below 256: the ten ASCII digits and the superscripts
  two, three and one. \<open>int\<close> accepts only the ASCII digits among them.\<close>

definition isdigit :: "char \<Rightarrow> bool" where
  "isdigit c = (let n = (of_char c :: nat) in (48 \<le> n \<and> n \<le> 57) \<or> n = 178 \<or> n = 179 \<or> n = 185)"

definition is_decimal :: "char \<Rightarrow> bool" where
  "is_decimal c = (let n = (of_char c :: nat) in 48 \<le> n \<and> n \<le> 57)"

text \<open>\<open>int(s)\<close> for a string \<open>s\<close> of \<open>isdigit\<close> characters: \<open>ValueError\<close> on the empty
  string, on a character that is not a decimal digit, and on more digits than the
  interpreter's limit \<open>max_str_digits\<close> (4300 unless configured; 0 switches the limit off).\<close>

definition int_of_digits :: "nat \<Rightarrow> string \<Rightarrow> py_exc + int" where
  "int_of_digits max_str_digits ds =
     (if ds = [] \<or> \<not> list_all is_decimal ds then
        Inl (Exc ''ValueError'' ''invalid literal for int() with base 10'')
      else if 0 < max_str_digits \<and> max_str_digits < length ds then
        Inl (Exc ''ValueError'' ''Exceeds the limit for integer string conversion'')
      else Inr (int (decimal_value ds)))"

text \<open>\<open>xs[0]\<close>.\<close>

definition first_elem :: "'a list \<Rightarrow> py_exc + 'a" where
  "first_elem xs = (case xs of [] \<Rightarrow> Inl (Exc ''IndexError'' ''list index out of range'') | x # _ \<Rightarrow> Inr x)"

text \<open>The body of the \<open>try\<close> in the submit handler, and the handler's
  \<open>score = 0; try: ... except: pass\<close> around it.\<close>

definition try_extract :: "nat \<Rightarrow> string \<Rightarrow> py_exc + int" where
  "try_extract max_str_digits ats_result =
     (case first_elem (filter (contains ''ATS Match Score'') (splitlines ats_result)) of
        Inl e \<Rightarrow> Inl e
      | Inr score_line \<Rightarrow> int_of_digits max_str_digits (filter isdigit score_line))"

definition extract_score :: "nat \<Rightarrow> string \<Rightarrow> int" where
  "extract_score max_str_digits ats_result =
     (case try_extract max_str_digits ats_result of Inl e \<Rightarrow> 0 | Inr v \<Rightarrow> v)"

subsection \<open>The client: the form's submit handler\<close>

text \<open>The helper \<open>ats_check\<close> of the client: \<open>post\<close> is \<open>requests.post\<close> with
  \<open>raise_for_status\<close> and \<open>json()\<close>, giving the key-value pairs of the response body.\<close>

definition ats_check :: "(string \<Rightarrow> string \<Rightarrow> py_exc + (string \<rightharpoonup> string)) \<Rightarrow> string \<Rightarrow> string \<Rightarrow>
    py_exc + string" where
  "ats_check post resume_text job_description =
     (case post resume_text job_description of
        Inr res \<Rightarrow> Inr (case res ''output'' of Some out \<Rightarrow> out | None \<Rightarrow> ''No ATS check output.'')
      | Inl e \<Rightarrow> if is_Exception e then Inr ''Error occurred during ATS check.'' else Inl e)"

record 'f uploaded_file =
  name :: string
  pdf :: 'f

record scoring_result =
  result_filename :: string
  score :: int
  output_text :: string

text \<open>\<open>for file in uploaded_files\<close>: \<open>extract\<close> is \<open>extract_text_from_pdf\<close>, whose
  exception is not caught.\<close>

fun resume_loop :: "('f \<Rightarrow> py_exc + string) \<Rightarrow> (string \<Rightarrow> string \<Rightarrow> py_exc + (string \<rightharpoonup> string)) \<Rightarrow>
    nat \<Rightarrow> string \<Rightarrow> 'f uploaded_file list \<Rightarrow> scoring_result list \<Rightarrow> py_exc + scoring_result list" where
  "resume_loop extract post max_digits jd_text [] results = Inr results"
| "resume_loop extract post max_digits jd_text (file # files) results =
     (case extract (pdf file) of
        Inl e \<Rightarrow> Inl e
      | Inr resume_text \<Rightarrow>
          (case ats_check post resume_text jd_text of
             Inl e \<Rightarrow> Inl e
           | Inr ats_result \<Rightarrow>
               resume_loop extract post max_digits jd_text files
                 (results @ [\<lparr>result_filename = name file,
                               score = extract_score max_digits ats_result,
                               output_text = ats_result\<rparr>])))"

text \<open>\<open>results.sort(key=lambda x: x["score"], reverse=True)\<close>: the list is reversed, sorted
  stably by ascending key, and reversed again.\<close>

definition sort_reverse :: "scoring_result list \<Rightarrow> scoring_result list" where
  "sort_reverse results = rev (sort_key score (rev results))"

datatype page =
  Idle
| Ranked scoring_result "scoring_result list"
| NoValidResumes

definition submit_form :: "('f \<Rightarrow> py_exc + string) \<Rightarrow> (string \<Rightarrow> string \<Rightarrow> py_exc + (string \<rightharpoonup> string)) \<Rightarrow>
    nat \<Rightarrow> bool \<Rightarrow> string \<Rightarrow> 'f uploaded_file list \<Rightarrow> py_exc + page" where
  "submit_form extract post max_digits submitted jd_text uploaded_files =
     (if submitted \<and> jd_text \<noteq> [] \<and> uploaded_files \<noteq> [] then
        (case resume_loop extract post max_digits jd_text uploaded_files [] of
           Inl e \<Rightarrow> Inl e
         | Inr results \<Rightarrow>
             if results \<noteq> [] then
               (case first_elem (sort_reverse results) of
                  Inl e \<Rightarrow> Inl e
                | Inr best_resume \<Rightarrow> Inr (Ranked best_resume (sort_reverse results)))
             else Inr NoValidResumes)
      else Inr Idle)"

subsection \<open>A small input for the flattening pipeline\<close>

definition example_jobs :: "string \<Rightarrow> string job list" where
  "example_jobs p =
     (if p = ''data/a.json'' then
        [\<lparr>slug = Some ''dev'', recommendations = Some [''r1'', ''r2'']\<rparr>,
         \<lparr>slug = None, recommendations = Some [''r3'', ''r4'']\<rparr>]
      else if p = ''b.json'' then
        [\<lparr>slug = None, recommendations = None\<rparr>,
         \<lparr>slug = Some ''dev'', recommendations = Some [''r5'']\<rparr>]
      else [])"

definition example_load :: "string \<Rightarrow> py_exc + string job list" where
  "example_load p =
     (if p = ''data/a.json'' \<or> p = ''b.json'' then Inr (example_jobs p)
      else Inl (Exc ''FileNotFoundError'' p))"

subsection \<open>The specification's reading of the batched upsert\<close>

text \<open>The vector record of a document, for an embedding function \<open>emb\<close>.\<close>

definition vector_of :: "(string \<Rightarrow> 'e) \<Rightarrow> item \<Rightarrow> 'e vector" where
  "vector_of emb doc = \<lparr>vector_id = item_id doc, vector_values = emb (line doc), metadata_text = line doc\<rparr>"

text \<open>The contiguous slices of size \<open>b\<close> of a list: \<open>(n + b - 1) div b\<close> of them, the
  \<open>k\<close>-th starting at position \<open>k * b\<close>.\<close>

definition slices :: "nat \<Rightarrow> 'a list \<Rightarrow> 'a list list" where
  "slices b xs = map (\<lambda>k. take b (drop (k * b) xs)) [0..<(length xs + b - 1) div b]"

subsection \<open>The specification's reading of the score extraction\<close>

text \<open>The value of a digit string in positional notation.\<close>

fun base10 :: "string \<Rightarrow> nat" where
  "base10 [] = 0"
| "base10 (c # cs) = digit_val c * 10 ^ length cs + base10 cs"

text \<open>The first line containing \<open>ATS Match Score\<close>; the digits of that line, read as one
  base-10 number; 0 when there is no such line or the digits do not parse.\<close>

definition spec_score :: "nat \<Rightarrow> string \<Rightarrow> int" where
  "spec_score max_str_digits report =
     (case find (sublist ''ATS Match Score'') (splitlines report) of
        None \<Rightarrow> 0
      | Some score_line \<Rightarrow>
          (let ds = filter isdigit score_line in
           if ds \<noteq> [] \<and> (\<forall>c \<in> set ds. is_decimal c) \<and> (max_str_digits = 0 \<or> length ds \<le> max_str_digits)
           then int (base10 ds) else 0))"

text \<open>The Scoring Result of a resume whose report is \<open>report_of file\<close>.\<close>

definition result_of :: "nat \<Rightarrow> ('f uploaded_file \<Rightarrow> string) \<Rightarrow> 'f uploaded_file \<Rightarrow> scoring_result" where
  "result_of max_digits report_of file =
     \<lparr>result_filename = name file, score = extract_score max_digits (report_of file),
      output_text = report_of file\<rparr>"

subsection \<open>Small inputs for the service and the client\<close>


definition failing_services :: "(string list, nat) services" where
  "failing_services =
     \<lparr>encode = (\<lambda>t. Inl (Exc ''RuntimeError'' ''model unavailable'')),
      index_upsert = (\<lambda>s v. Inl (Exc ''PineconeException'' ''index unreachable'')),
      index_delete = (\<lambda>s. Inl (Exc ''PineconeException'' ''index unreachable'')),
      generate_content = (\<lambda>p. Inl (Exc ''ResourceExhausted'' ''quota exceeded''))\<rparr>"

definition example_docs :: "item list" where
  "example_docs =
     [\<lparr>item_id = ''dev-0'', line = ''x'', filename = ''a.json'', page_number = ''1''\<rparr>,
      \<lparr>item_id = ''dev-1'', line = ''xy'', filename = ''a.json'', page_number = ''1''\<rparr>,
      \<lparr>item_id = ''qa-2'', line = ''xyz'', filename = ''a.json'', page_number = ''1''\<rparr>]"

text \<open>A PDF reader that returns the file's content as its text and rejects one content; a
  backend that answers with a score line built from the resume text and is unreachable for one
  resume text.\<close>

definition example_extract :: "string \<Rightarrow> py_exc + string" where
  "example_extract f =
     (if f = ''%broken'' then Inl (Exc ''PDFSyntaxError'' ''No /Root object'') else Inr f)"

definition example_post :: "string \<Rightarrow> string \<Rightarrow> py_exc + (string \<rightharpoonup> string)" where
  "example_post resume_text job_description =
     (if resume_text = ''offline'' then Inl (Exc ''ConnectionError'' ''connection refused'')
      else Inr [''output'' \<mapsto> ''ATS Match Score: '' @ resume_text @ ''%''])"

definition example_report :: "string uploaded_file \<Rightarrow> string" where
  "example_report file = ''ATS Match Score: '' @ pdf file @ ''%''"

definition example_files :: "string uploaded_file list" where
  "example_files = [\<lparr>name = ''a.pdf'', pdf = ''40''\<rparr>, \<lparr>name = ''b.pdf'', pdf = ''90''\<rparr>,
                    \<lparr>name = ''c.pdf'', pdf = ''65''\<rparr>]"

text \<open>A service whose store takes one batch and raises on every later one, and 51
  documents, which make two batches of the endpoint's batch size 50.\<close>

definition store_full_services :: "(string list, nat) services" where
  "store_full_services =
     \<lparr>encode = (\<lambda>t. Inr (length t)),
      index_upsert = (\<lambda>s v. if s = [] then Inr (map vector_id v)
                              else Inl (Exc ''PineconeException'' ''index unreachable'')),
      index_delete = (\<lambda>s. Inr []),
      generate_content = (\<lambda>p. Inr ''1. ATS Match Score: 87%'')\<rparr>"

definition many_docs :: "item list" where
  "many_docs = map (\<lambda>i. \<lparr>item_id = ''dev-'' @ str_nat i, line = ''x'', filename = ''a.json'',
                            page_number = ''1''\<rparr>) [0..<51]"

section \<open>Properties\<close>

subsection \<open>The flattening pipeline\<close>

lemma rec_loop_eq:
  "rec_loop dumps fname slg rs (items, g) =
     (items @ map (\<lambda>(i, r). \<lparr>item_id = slg @ ''-'' @ str_nat i, line = dumps r,
                  filename = fname, page_number = ''1''\<rparr>) (enumerate g rs), g + length rs)"
  by (induction rs arbitrary: items g) simp_all

lemma enumerate_rows:
  "map (spec_item dumps) (enumerate g (map (\<lambda>(k, r). (fname, j, k, r)) (enumerate 0 rs))) =
   map (\<lambda>(i, r). \<lparr>item_id = (case slug j of Some s \<Rightarrow> s | None \<Rightarrow> ''job-'' @ str_nat g) @ ''-'' @ str_nat i,
        line = dumps r, filename = fname, page_number = ''1''\<rparr>) (enumerate g rs)"
  by (rule nth_equalityI) (simp_all add: nth_enumerate_eq spec_item_def split: option.splits)

lemma job_loop_eq:
  "job_loop dumps fname js (items, g) =
     (items @ map (spec_item dumps) (enumerate g (concat (map (job_rows fname) js))),
      g + length (concat (map (job_rows fname) js)))"
proof (induction js arbitrary: items g)
  case Nil
  show ?case by simp
next
  case (Cons j js)
  have len: "length (job_rows fname j) = length (job_recs j)"
    by (simp add: job_rows_def)
  show ?case
    by (simp add: Let_def rec_loop_eq Cons.IH enumerate_append_eq len add.assoc
        job_recs_def[symmetric])
      (simp add: job_rows_def enumerate_rows)
qed

lemma file_loop_eq:
  "\<forall>p \<in> set ps. load p = Inr (jobs_of p) \<Longrightarrow>
   file_loop load dumps ps (items, g) =
     Inr (items @ map (spec_item dumps)
            (enumerate g (all_recs (map (\<lambda>p. (basename p, jobs_of p)) ps))),
          g + length (all_recs (map (\<lambda>p. (basename p, jobs_of p)) ps)))"
proof (induction ps arbitrary: items g)
  case Nil
  show ?case by (simp add: all_recs_def)
next
  case (Cons p ps)
  then show ?case
    by (simp add: job_loop_eq all_recs_def file_rows_def enumerate_append_eq add.assoc)
qed

lemma prepare_eq:
  "\<forall>p \<in> set ps. load p = Inr (jobs_of p) \<Longrightarrow>
   prepare_jsons_for_rag load dumps ps = Inr (spec_items dumps (map (\<lambda>p. (basename p, jobs_of p)) ps))"
  using file_loop_eq[of ps load jobs_of dumps "[]" 0] by (simp add: prepare_jsons_for_rag_def spec_items_def)

lemma digit_val_digit_char: "d < 10 \<Longrightarrow> digit_val (digit_char d) = d"
  by (simp add: digit_val_def digit_char_def)

lemma decimal_value_snoc: "decimal_value (ds @ [c]) = 10 * decimal_value ds + digit_val c"
  by (simp add: decimal_value_def)

lemma decimal_value_str_nat: "decimal_value (str_nat n) = n"
proof (induction n rule: str_nat.induct)
  case (1 n)
  show ?case
  proof (cases "n < 10")
    case True
    then show ?thesis
      by (subst str_nat.simps) (simp add: decimal_value_def digit_val_digit_char)
  next
    case False
    with 1 show ?thesis
      by (subst str_nat.simps) (simp add: decimal_value_snoc digit_val_digit_char)
  qed
qed

lemma of_char_digit_char: "d < 10 \<Longrightarrow> of_char (digit_char d) = 48 + d"
  by (simp add: digit_char_def)

lemma digit_char_not_hyphen: "d < 10 \<Longrightarrow> digit_char d \<noteq> CHR ''-''"
proof
  assume d: "d < 10" and "digit_char d = CHR ''-''"
  then have "(of_char (digit_char d) :: nat) = of_char (CHR ''-'')" by simp
  with d show False by (simp add: of_char_digit_char)
qed

lemma str_nat_no_hyphen: "CHR ''-'' \<notin> set (str_nat n)"
proof (induction n rule: str_nat.induct)
  case (1 n)
  show ?case
  proof (cases "n < 10")
    case True
    then show ?thesis
      using digit_char_not_hyphen[of n] by (subst str_nat.simps) auto
  next
    case False
    with 1 show ?thesis
      using digit_char_not_hyphen[of "n mod 10"] by (subst str_nat.simps) auto
  qed
qed

lemma id_suffix_counter: "id_suffix (slg @ CHR ''-'' # str_nat i) = str_nat i"
proof -
  have "takeWhile (\<lambda>c. c \<noteq> CHR ''-'') (rev (str_nat i) @ CHR ''-'' # rev slg) = rev (str_nat i)"
    using str_nat_no_hyphen[of i] by (subst takeWhile_append2) auto
  then show ?thesis by (simp add: id_suffix_def)
qed

lemma spec_items_counter:
  "i < length (all_recs files) \<Longrightarrow>
   decimal_value (id_suffix (item_id (spec_items dumps files ! i))) = i"
  by (simp add: spec_items_def nth_enumerate_eq spec_item_def split_beta id_suffix_counter
      decimal_value_str_nat)

lemma length_spec_items: "length (spec_items dumps files) = length (all_recs files)"
  by (simp add: spec_items_def)

lemma spec_items_distinct: "distinct (map item_id (spec_items dumps files))"
proof -
  have "map (\<lambda>x. decimal_value (id_suffix x)) (map item_id (spec_items dumps files)) =
        [0..<length (all_recs files)]"
    by (rule nth_equalityI) (simp_all add: spec_items_counter length_spec_items)
  then have "distinct (map (\<lambda>x. decimal_value (id_suffix x)) (map item_id (spec_items dumps files)))"
    by simp
  then show ?thesis by (simp only: distinct_map)
qed

lemma length_all_recs:
  "length (all_recs files) =
     sum_list (map (\<lambda>(fname, jobs). sum_list (map (\<lambda>j. length (job_recs j)) jobs)) files)"
proof -
  have rows: "length (file_rows f) = (case f of (fname, jobs) \<Rightarrow> sum_list (map (\<lambda>j. length (job_recs j)) jobs))" for f :: "string \<times> 'a job list"
    by (cases f) (simp add: file_rows_def length_concat comp_def job_rows_def)
  show ?thesis
    by (simp add: all_recs_def length_concat comp_def rows)
qed

text \<open>
  C1. When every input file parses as a list of job objects, \<open>prepare_jsons_for_rag\<close>
  returns one item per recommendation, in file order, then job order, then recommendation
  order. The counter starts at 0 and grows by one per recommendation over the whole input, so
  the item at position \<open>i\<close> has the identifier \<open>slug-i\<close>, where an absent slug is
  replaced by \<open>job-c\<close> with \<open>c\<close> the counter on reaching the job (\<open>i - k\<close> for the
  recommendation at position \<open>k\<close> of its job). The counter can be read back from the
  identifier, and the identifiers of one run are pairwise distinct.
\<close>

theorem prepare_jsons_for_rag_global_counter:
  assumes "\<forall>p \<in> set json_paths. load p = Inr (jobs_of p)"
  shows "let files = map (\<lambda>p. (basename p, jobs_of p)) json_paths;
             items = spec_items dumps files
         in prepare_jsons_for_rag load dumps json_paths = Inr items
          \<and> length items = sum_list (map (\<lambda>(fname, jobs). sum_list (map (\<lambda>j. length (job_recs j)) jobs)) files)
          \<and> (\<forall>i < length items. \<exists>fname j k r. all_recs files ! i = (fname, j, k, r) \<and>
                item_id (items ! i) =
                  (case slug j of Some s \<Rightarrow> s | None \<Rightarrow> ''job-'' @ str_nat (i - k)) @ ''-'' @ str_nat i)
          \<and> (\<forall>i < length items. decimal_value (id_suffix (item_id (items ! i))) = i)
          \<and> distinct (map item_id items)"
proof -
  define files where "files = map (\<lambda>p. (basename p, jobs_of p)) json_paths"
  have a: "prepare_jsons_for_rag load dumps json_paths = Inr (spec_items dumps files)"
    unfolding files_def using assms by (rule prepare_eq)
  have b: "length (spec_items dumps files) =
      sum_list (map (\<lambda>(fname, jobs). sum_list (map (\<lambda>j. length (job_recs j)) jobs)) files)"
    by (simp only: length_spec_items length_all_recs)
  have c: "\<exists>fname j k r. all_recs files ! i = (fname, j, k, r) \<and>
            item_id (spec_items dumps files ! i) =
              (case slug j of Some s \<Rightarrow> s | None \<Rightarrow> ''job-'' @ str_nat (i - k)) @ ''-'' @ str_nat i"
    if "i < length (spec_items dumps files)" for i
  proof -
    obtain fname j k r where row: "all_recs files ! i = (fname, j, k, r)"
      by (metis prod_cases4)
    from that have "i < length (all_recs files)" by (simp add: length_spec_items)
    then have "item_id (spec_items dumps files ! i) =
        (case slug j of Some s \<Rightarrow> s | None \<Rightarrow> ''job-'' @ str_nat (i - k)) @ ''-'' @ str_nat i"
      by (simp add: spec_items_def nth_enumerate_eq spec_item_def row)
    with row show ?thesis by blast
  qed
  have d: "decimal_value (id_suffix (item_id (spec_items dumps files ! i))) = i"
    if "i < length (spec_items dumps files)" for i
    using that by (simp add: spec_items_counter length_spec_items)
  show ?thesis
    unfolding Let_def files_def[symmetric]
    using a b c d spec_items_distinct[of dumps files] by blast
qed

text \<open>The theorem at two files holding four jobs and five recommendations.\<close>

theorem prepare_jsons_for_rag_global_counter_witness:
  "prepare_jsons_for_rag example_load id [''data/a.json'', ''b.json''] =
     Inr [\<lparr>item_id = ''dev-0'', line = ''r1'', filename = ''a.json'', page_number = ''1''\<rparr>,
          \<lparr>item_id = ''dev-1'', line = ''r2'', filename = ''a.json'', page_number = ''1''\<rparr>,
          \<lparr>item_id = ''job-2-2'', line = ''r3'', filename = ''a.json'', page_number = ''1''\<rparr>,
          \<lparr>item_id = ''job-2-3'', line = ''r4'', filename = ''a.json'', page_number = ''1''\<rparr>,
          \<lparr>item_id = ''dev-4'', line = ''r5'', filename = ''b.json'', page_number = ''1''\<rparr>]
   \<and> distinct (map item_id (spec_items id
         (map (\<lambda>p. (basename p, example_jobs p)) [''data/a.json'', ''b.json''])))"
proof -
  have h: "\<forall>p \<in> set [''data/a.json'', ''b.json'']. example_load p = Inr (example_jobs p)"
    by (simp add: example_load_def)
  have e: "spec_items id (map (\<lambda>p. (basename p, example_jobs p)) [''data/a.json'', ''b.json'']) =
     [\<lparr>item_id = ''dev-0'', line = ''r1'', filename = ''a.json'', page_number = ''1''\<rparr>,
      \<lparr>item_id = ''dev-1'', line = ''r2'', filename = ''a.json'', page_number = ''1''\<rparr>,
      \<lparr>item_id = ''job-2-2'', line = ''r3'', filename = ''a.json'', page_number = ''1''\<rparr>,
      \<lparr>item_id = ''job-2-3'', line = ''r4'', filename = ''a.json'', page_number = ''1''\<rparr>,
      \<lparr>item_id = ''dev-4'', line = ''r5'', filename = ''b.json'', page_number = ''1''\<rparr>]"
    by code_simp
  show ?thesis
    using prepare_jsons_for_rag_global_counter[OF h, of id] unfolding Let_def e by simp
qed

subsection \<open>The batched upsert\<close>

lemma encode_loop_ok:
  "\<forall>d \<in> set docs. enc (line d) = Inr (emb (line d)) \<Longrightarrow>
   encode_loop enc docs vectors tr =
     (tr @ map (\<lambda>d. Encode (line d)) docs, Inr (vectors @ map (vector_of emb) docs))"
  by (induction docs arbitrary: vectors tr) (simp_all add: vector_of_def)

lemma encode_loop_raises:
  "encode_loop enc docs vectors tr = (tr', Inl e) \<Longrightarrow>
   \<exists>d \<in> set docs. enc (line d) = Inl e"
  by (induction docs arbitrary: vectors tr) (auto split: sum.splits)

lemma ceil_div_less: "0 < b \<Longrightarrow> k * b < n \<longleftrightarrow> k < (n + b - 1) div (b::nat)"
proof -
  assume b: "0 < b"
  have "k < (n + b - 1) div b \<longleftrightarrow> Suc k \<le> (n + b - 1) div b" by auto
  also have "\<dots> \<longleftrightarrow> Suc k * b \<le> n + b - 1"
    using b by (simp only: less_eq_div_iff_mult_less_eq)
  also have "\<dots> \<longleftrightarrow> k * b < n"
    using b by auto
  finally show ?thesis by simp
qed




lemma length_slices: "length (slices b xs) = (length xs + b - 1) div b"
  by (simp add: slices_def)

lemma slices_nth:
  assumes "0 < b" "k < length (slices b xs)"
  shows "slices b xs ! k = take b (drop (k * b) xs)"
    and "length (slices b xs ! k) = (if Suc k < length (slices b xs) then b else length xs - k * b)"
    and "0 < length (slices b xs ! k)" and "length (slices b xs ! k) \<le> b"
proof -
  from assms have k: "k < (length xs + b - 1) div b" by (simp add: length_slices)
  then show nth: "slices b xs ! k = take b (drop (k * b) xs)"
    by (simp add: slices_def)
  from k have lt: "k * b < length xs"
    using ceil_div_less[OF assms(1)] by simp
  have "Suc k < (length xs + b - 1) div b \<longleftrightarrow> Suc k * b < length xs"
    using ceil_div_less[OF assms(1), of "Suc k" "length xs"] by simp
  then show "length (slices b xs ! k) = (if Suc k < length (slices b xs) then b else length xs - k * b)"
    using lt by (auto simp: nth length_slices min_def)
  show "0 < length (slices b xs ! k)" using lt assms(1) by (simp add: nth)
  show "length (slices b xs ! k) \<le> b" by (simp add: nth)
qed



lemma batch_loop_raises:
  "batch_loop ups vectors b i w = (w', Inl e) \<Longrightarrow> \<exists>s v. ups s v = Inl e"
proof (induction ups vectors b i w rule: batch_loop.induct)
  case (1 ups vectors b i s tr)
  show ?case
  proof (cases "0 < b \<and> i < length vectors")
    case False
    with 1(2) show ?thesis by (subst (asm) batch_loop.simps) simp
  next
    case True
    show ?thesis
    proof (cases "ups s (take b (drop i vectors))")
      case (Inl e')
      with True 1(2) have "e' = e" by (subst (asm) batch_loop.simps) simp
      with Inl show ?thesis by blast
    next
      case (Inr s')
      with True 1(2) have "batch_loop ups vectors b (i + b) (s', tr @ [Upsert (take b (drop i vectors))]) = (w', Inl e)"
        by (subst (asm) batch_loop.simps) simp
      with 1(1)[OF True Inr] show ?thesis by blast
    qed
  qed
qed

lemma upsert_documents_raises:
  assumes "upsert_documents svc docs 50 w = (w', Inl e)"
  shows "(\<exists>d \<in> set docs. encode svc (line d) = Inl e) \<or> (\<exists>s v. index_upsert svc s v = Inl e)"
proof -
  obtain s tr where w: "w = (s, tr)" by (cases w)
  obtain tr1 r where enc: "encode_loop (encode svc) docs [] tr = (tr1, r)"
    by (cases "encode_loop (encode svc) docs [] tr")
  show ?thesis
  proof (cases r)
    case (Inl e')
    with assms w enc have "e' = e" by (simp add: upsert_documents_def)
    with Inl enc encode_loop_raises[of "encode svc" docs "[]" tr tr1 e] show ?thesis by simp
  next
    case (Inr vectors)
    obtain w2 r2 where bl: "batch_loop (index_upsert svc) vectors (nat 50) 0 (s, tr1) = (w2, r2)"
      by (cases "batch_loop (index_upsert svc) vectors (nat 50) 0 (s, tr1)")
    with assms w enc Inr have "r2 = Inl e"
      by (cases r2) (simp_all add: upsert_documents_def)
    with bl batch_loop_raises[of "index_upsert svc" vectors "nat 50" 0 "(s, tr1)" w2 e]
    show ?thesis by simp
  qed
qed



text \<open>
  C10. With an empty list of items, \<open>push_docs\<close> (and \<open>upsert_documents\<close> under it) makes
  no call to the embedding model or the store: the trace and the store are unchanged, and the
  response is the success body with an empty list of inserted identifiers, sent with status 200.
\<close>

theorem push_docs_empty:
  "push_docs svc [] (s, tr) =
     ((s, tr), Inr [(''status'', JStr ''success''), (''inserted_ids'', JList [])])
   \<and> upsert_documents svc [] 50 (s, tr) = ((s, tr), Inr [])
   \<and> respond (snd (push_docs svc [] (s, tr))) =
       \<lparr>status_code = 200, content = [(''status'', JStr ''success''), (''inserted_ids'', JList [])]\<rparr>"
proof -
  have "batch_loop (index_upsert svc) [] (nat 50) 0 (s, tr) = ((s, tr), Inr ())"
    by (subst batch_loop.simps) simp
  then have "upsert_documents svc [] 50 (s, tr) = ((s, tr), Inr [])"
    by (simp add: upsert_documents_def)
  then show ?thesis
    by (simp add: push_docs_def respond_def)
qed

subsection \<open>The endpoints\<close>

lemma respond_except:
  "is_Exception e \<Longrightarrow>
   respond (except_Exception e) = \<lparr>status_code = 200, content = [(''error'', JStr (str_exc e))]\<rparr>"
  by (simp add: respond_def except_Exception_def)

text \<open>A raising call ends \<open>upsert_documents\<close> with its exception: the embedding call of
  the first document it fails on, or the upsert of the first batch the store rejects (the store
  passing through the states \<open>st 0\<close>, \<open>st 1\<close>, ... while the batches before it are taken).\<close>

lemma encode_loop_fails:
  "\<forall>x \<in> set pre. \<exists>v. enc (line x) = Inr v \<Longrightarrow> enc (line d) = Inl e \<Longrightarrow>
   snd (encode_loop enc (pre @ d # post) vectors tr) = Inl e"
  by (induction pre arbitrary: vectors tr) auto

lemma batch_loop_fails:
  assumes b: "0 < b" and k: "k < (length vectors + b - 1) div b"
    and ok: "\<forall>j < k. ups (st j) (take b (drop (j * b) vectors)) = Inr (st (Suc j))"
    and bad: "ups (st k) (take b (drop (k * b) vectors)) = Inl e"
  shows "i \<le> k \<Longrightarrow> snd (batch_loop ups vectors b (i * b) (st i, tr)) = Inl e"
proof (induction "k - i" arbitrary: i tr)
  case 0
  then have ik: "i = k" by simp
  have "k * b < length vectors"
    using ceil_div_less[OF b, of k "length vectors"] k by simp
  then show ?case
    using b bad unfolding ik by (subst batch_loop.simps) simp
next
  case (Suc m)
  then have lt: "i < k" by simp
  then have "i < (length vectors + b - 1) div b" using k by simp
  then have il: "i * b < length vectors"
    using ceil_div_less[OF b, of i "length vectors"] by simp
  from lt ok have step: "ups (st i) (take b (drop (i * b) vectors)) = Inr (st (Suc i))"
    by simp
  have "m = k - Suc i" using Suc(2) by simp
  moreover have "Suc i \<le> k" using lt by simp
  ultimately have ih: "snd (batch_loop ups vectors b (Suc i * b) (st (Suc i), tr')) = Inl e" for tr'
    using Suc(1) by blast
  have "i * b + b = Suc i * b" by simp
  then show ?case
    using b il step ih by (subst batch_loop.simps) (simp del: mult_Suc)
qed

lemma upsert_documents_encode_fails:
  assumes "\<forall>x \<in> set pre. \<exists>v. encode svc (line x) = Inr v" and "encode svc (line d) = Inl e"
  shows "snd (upsert_documents svc (pre @ d # post) batch_size w) = Inl e"
proof -
  obtain s tr where w: "w = (s, tr)" by (cases w)
  obtain tr1 r where enc: "encode_loop (encode svc) (pre @ d # post) [] tr = (tr1, r)"
    by (cases "encode_loop (encode svc) (pre @ d # post) [] tr")
  with encode_loop_fails[OF assms, of post "[]" tr] have "r = Inl e" by simp
  with enc show ?thesis by (simp add: upsert_documents_def w)
qed

lemma upsert_documents_store_fails:
  assumes bs: "0 < batch_size"
    and enc: "\<forall>d \<in> set docs. encode svc (line d) = Inr (emb (line d))"
    and k: "k < length (slices (nat batch_size) (map (vector_of emb) docs))"
    and st0: "st 0 = fst w"
    and ok: "\<forall>j < k. index_upsert svc (st j) (slices (nat batch_size) (map (vector_of emb) docs) ! j)
                = Inr (st (Suc j))"
    and bad: "index_upsert svc (st k) (slices (nat batch_size) (map (vector_of emb) docs) ! k) = Inl e"
  shows "snd (upsert_documents svc docs batch_size w) = Inl e"
proof -
  define b where "b = nat batch_size"
  define vectors where "vectors = map (vector_of emb) docs"
  obtain s tr where w: "w = (s, tr)" by (cases w)
  have b: "0 < b" using bs by (simp add: b_def)
  have k': "k < (length vectors + b - 1) div b"
    using k by (simp add: length_slices b_def vectors_def)
  have nth: "slices b vectors ! j = take b (drop (j * b) vectors)" if "j \<le> k" for j
    using that k' by (simp add: slices_def)
  have ok': "\<forall>j < k. index_upsert svc (st j) (take b (drop (j * b) vectors)) = Inr (st (Suc j))"
    using ok nth by (simp add: b_def[symmetric] vectors_def[symmetric])
  have bad': "index_upsert svc (st k) (take b (drop (k * b) vectors)) = Inl e"
    using bad nth[of k] by (simp add: b_def[symmetric] vectors_def[symmetric])
  have el: "encode_loop (encode svc) docs [] tr =
      (tr @ map (\<lambda>d. Encode (line d)) docs, Inr vectors)"
    using encode_loop_ok[OF enc, of "[]" tr] by (simp add: vectors_def)
  have "snd (batch_loop (index_upsert svc) vectors b (0 * b)
      (st 0, tr @ map (\<lambda>d. Encode (line d)) docs)) = Inl e"
    by (rule batch_loop_fails[OF b k' ok' bad']) simp
  then have bl: "snd (batch_loop (index_upsert svc) vectors b 0
      (s, tr @ map (\<lambda>d. Encode (line d)) docs)) = Inl e"
    using st0 by (simp add: w)
  obtain w2 r2 where r: "batch_loop (index_upsert svc) vectors b 0
      (s, tr @ map (\<lambda>d. Encode (line d)) docs) = (w2, r2)"
    by (cases "batch_loop (index_upsert svc) vectors b 0 (s, tr @ map (\<lambda>d. Encode (line d)) docs)")
  with bl have "r2 = Inl e" by simp
  with r bs show ?thesis
    by (simp add: upsert_documents_def w el b_def[symmetric])
qed

text \<open>
  C7. When the exceptions of the downstream calls (embedding, store, generative model) are
  instances of \<open>Exception\<close>, none of the three handlers raises: each returns a body, sent
  with status 200. For \<open>/push_docs/\<close>: when the embedding call raises \<open>e\<close> on a document
  (the calls before it having returned), and when the store raises \<open>e\<close> on a batch (the
  embeddings and the batches before it having succeeded), the body is the single key
  \<open>error\<close> holding \<open>str(e)\<close>; and an exception that ends \<open>upsert_documents\<close> is always
  one that the embedding call or the store raised. For \<open>/ats_check/\<close> and
  \<open>/clear_pinecone/\<close>: when the generative call, or the delete call, raises \<open>e\<close>, the body
  is the key \<open>error\<close> holding \<open>str(e)\<close>.
\<close>

theorem endpoints_catch_downstream:
  assumes enc: "\<forall>t e. encode svc t = Inl e \<longrightarrow> is_Exception e"
    and ups: "\<forall>s v e. index_upsert svc s v = Inl e \<longrightarrow> is_Exception e"
    and del: "\<forall>s e. index_delete svc s = Inl e \<longrightarrow> is_Exception e"
    and gen: "\<forall>p e. generate_content svc p = Inl e \<longrightarrow> is_Exception e"
  shows "(\<exists>b. snd (push_docs svc docs w) = Inr b)
       \<and> (\<forall>pre d post e.
            docs = pre @ d # post \<and> (\<forall>x \<in> set pre. \<exists>v. encode svc (line x) = Inr v)
            \<and> encode svc (line d) = Inl e \<longrightarrow>
            respond (snd (push_docs svc docs w)) =
              \<lparr>status_code = 200, content = [(''error'', JStr (str_exc e))]\<rparr>)
       \<and> (\<forall>emb st k e.
            (\<forall>d \<in> set docs. encode svc (line d) = Inr (emb (line d)))
            \<and> k < length (slices 50 (map (vector_of emb) docs)) \<and> st 0 = fst w
            \<and> (\<forall>j < k. index_upsert svc (st j) (slices 50 (map (vector_of emb) docs) ! j)
                          = Inr (st (Suc j)))
            \<and> index_upsert svc (st k) (slices 50 (map (vector_of emb) docs) ! k) = Inl e \<longrightarrow>
            respond (snd (push_docs svc docs w)) =
              \<lparr>status_code = 200, content = [(''error'', JStr (str_exc e))]\<rparr>)
       \<and> (\<forall>e. snd (upsert_documents svc docs 50 w) = Inl e \<longrightarrow>
            ((\<exists>d \<in> set docs. encode svc (line d) = Inl e) \<or> (\<exists>s v. index_upsert svc s v = Inl e))
            \<and> respond (snd (push_docs svc docs w)) =
              \<lparr>status_code = 200, content = [(''error'', JStr (str_exc e))]\<rparr>)
       \<and> (\<exists>b. snd (api_ats_check svc resume_text job_description w) = Inr b)
       \<and> (\<forall>e. generate_content svc (ats_prompt resume_text job_description) = Inl e \<longrightarrow>
            respond (snd (api_ats_check svc resume_text job_description w)) =
              \<lparr>status_code = 200, content = [(''error'', JStr (str_exc e))]\<rparr>)
       \<and> (\<exists>b. snd (api_clear_pinecone svc w) = Inr b)
       \<and> (\<forall>e. index_delete svc (fst w) = Inl e \<longrightarrow>
            respond (snd (api_clear_pinecone svc w)) =
              \<lparr>status_code = 200, content = [(''error'', JStr (str_exc e))]\<rparr>)"
proof -
  obtain s tr where w: "w = (s, tr)" by (cases w)
  obtain w' r where up: "upsert_documents svc docs 50 w = (w', r)"
    by (cases "upsert_documents svc docs 50 w")
  have src: "(\<exists>d \<in> set docs. encode svc (line d) = Inl e) \<or> (\<exists>s v. index_upsert svc s v = Inl e)"
    if "r = Inl e" for e
    using upsert_documents_raises[of svc docs w w' e] up that by blast
  have exc: "is_Exception e" if "r = Inl e" for e
    using src[OF that] enc ups by blast
  have err: "respond (snd (push_docs svc docs w)) =
      \<lparr>status_code = 200, content = [(''error'', JStr (str_exc e))]\<rparr>"
    if "snd (upsert_documents svc docs 50 w) = Inl e" for e
    using that exc by (simp add: push_docs_def up respond_except)
  have p1: "\<exists>b. snd (push_docs svc docs w) = Inr b"
    using exc by (cases r) (simp_all add: push_docs_def up except_Exception_def)
  have p2: "\<forall>pre d post e.
      docs = pre @ d # post \<and> (\<forall>x \<in> set pre. \<exists>v. encode svc (line x) = Inr v)
      \<and> encode svc (line d) = Inl e \<longrightarrow>
      respond (snd (push_docs svc docs w)) =
        \<lparr>status_code = 200, content = [(''error'', JStr (str_exc e))]\<rparr>"
    using upsert_documents_encode_fails[of _ svc _ _ _ 50 w] err by blast
  have p3: "\<forall>emb st k e.
      (\<forall>d \<in> set docs. encode svc (line d) = Inr (emb (line d)))
      \<and> k < length (slices 50 (map (vector_of emb) docs)) \<and> st 0 = fst w
      \<and> (\<forall>j < k. index_upsert svc (st j) (slices 50 (map (vector_of emb) docs) ! j)
                    = Inr (st (Suc j)))
      \<and> index_upsert svc (st k) (slices 50 (map (vector_of emb) docs) ! k) = Inl e \<longrightarrow>
      respond (snd (push_docs svc docs w)) =
        \<lparr>status_code = 200, content = [(''error'', JStr (str_exc e))]\<rparr>"
  proof (intro allI impI)
    fix emb st k e
    assume h: "(\<forall>d \<in> set docs. encode svc (line d) = Inr (emb (line d)))
      \<and> k < length (slices 50 (map (vector_of emb) docs)) \<and> st 0 = fst w
      \<and> (\<forall>j < k. index_upsert svc (st j) (slices 50 (map (vector_of emb) docs) ! j)
                    = Inr (st (Suc j)))
      \<and> index_upsert svc (st k) (slices 50 (map (vector_of emb) docs) ! k) = Inl e"
    have "snd (upsert_documents svc docs 50 w) = Inl e"
      using upsert_documents_store_fails[of 50 docs svc emb k st w e] h by simp
    then show "respond (snd (push_docs svc docs w)) =
        \<lparr>status_code = 200, content = [(''error'', JStr (str_exc e))]\<rparr>"
      by (rule err)
  qed
  have p4: "\<forall>e. snd (upsert_documents svc docs 50 w) = Inl e \<longrightarrow>
      ((\<exists>d \<in> set docs. encode svc (line d) = Inl e) \<or> (\<exists>s v. index_upsert svc s v = Inl e))
      \<and> respond (snd (push_docs svc docs w)) =
        \<lparr>status_code = 200, content = [(''error'', JStr (str_exc e))]\<rparr>"
    using src err by (simp add: up)
  have a1: "\<exists>b. snd (api_ats_check svc resume_text job_description w) = Inr b"
    using gen by (auto simp: api_ats_check_def w Let_def except_Exception_def split: sum.splits)
  have a2: "\<forall>e. generate_content svc (ats_prompt resume_text job_description) = Inl e \<longrightarrow>
      respond (snd (api_ats_check svc resume_text job_description w)) =
        \<lparr>status_code = 200, content = [(''error'', JStr (str_exc e))]\<rparr>"
    using gen by (auto simp: api_ats_check_def w Let_def respond_except)
  have c1: "\<exists>b. snd (api_clear_pinecone svc w) = Inr b"
    using del by (auto simp: api_clear_pinecone_def w except_Exception_def split: sum.splits)
  have c2: "\<forall>e. index_delete svc (fst w) = Inl e \<longrightarrow>
      respond (snd (api_clear_pinecone svc w)) =
        \<lparr>status_code = 200, content = [(''error'', JStr (str_exc e))]\<rparr>"
    using del by (auto simp: api_clear_pinecone_def w respond_except)
  show ?thesis
    by (intro conjI) (rule p1, rule p2, rule p3, rule p4, rule a1, rule a2, rule c1, rule c2)
qed

text \<open>The theorem at a service whose every call raises, and at a store that raises on the
  second of two batches.\<close>

theorem endpoints_catch_downstream_witness:
  "respond (snd (push_docs failing_services example_docs ([], []))) =
     \<lparr>status_code = 200, content = [(''error'', JStr ''model unavailable'')]\<rparr>
   \<and> respond (snd (push_docs store_full_services many_docs ([], []))) =
     \<lparr>status_code = 200, content = [(''error'', JStr ''index unreachable'')]\<rparr>
   \<and> respond (snd (api_ats_check failing_services ''resume'' ''job'' ([], []))) =
     \<lparr>status_code = 200, content = [(''error'', JStr ''quota exceeded'')]\<rparr>
   \<and> respond (snd (api_clear_pinecone failing_services ([], []))) =
     \<lparr>status_code = 200, content = [(''error'', JStr ''index unreachable'')]\<rparr>"
proof -
  have h1: "\<forall>t e. encode failing_services t = Inl e \<longrightarrow> is_Exception e"
    and h2: "\<forall>s v e. index_upsert failing_services s v = Inl e \<longrightarrow> is_Exception e"
    and h3: "\<forall>s e. index_delete failing_services s = Inl e \<longrightarrow> is_Exception e"
    and h4: "\<forall>p e. generate_content failing_services p = Inl e \<longrightarrow> is_Exception e"
    by (auto simp: failing_services_def)
  note F = endpoints_catch_downstream[OF h1 h2 h3 h4, of example_docs "([], [])" "''resume''" "''job''"]
  have g1: "\<forall>t e. encode store_full_services t = Inl e \<longrightarrow> is_Exception e"
    and g2: "\<forall>s v e. index_upsert store_full_services s v = Inl e \<longrightarrow> is_Exception e"
    and g3: "\<forall>s e. index_delete store_full_services s = Inl e \<longrightarrow> is_Exception e"
    and g4: "\<forall>p e. generate_content store_full_services p = Inl e \<longrightarrow> is_Exception e"
    by (auto simp: store_full_services_def split: if_splits)
  note G = endpoints_catch_downstream[OF g1 g2 g3 g4, of many_docs "([], [])" "''resume''" "''job''"]
  \<comment> \<open>the embedding call raises on the first document\<close>
  have a: "example_docs = [] @ hd example_docs # tl example_docs
      \<and> (\<forall>x \<in> set []. \<exists>v. encode failing_services (line x) = Inr v)
      \<and> encode failing_services (line (hd example_docs)) = Inl (Exc ''RuntimeError'' ''model unavailable'')"
    by (simp add: example_docs_def failing_services_def)
  have A: "respond (snd (push_docs failing_services example_docs ([], []))) =
      \<lparr>status_code = 200, content = [(''error'', JStr (str_exc (Exc ''RuntimeError'' ''model unavailable'')))]\<rparr>"
    by (rule F[THEN conjunct2, THEN conjunct1, rule_format, OF a])
  \<comment> \<open>the store takes the first batch of 50 and raises on the second\<close>
  define vs where "vs = map (vector_of length) many_docs"
  define st where "st = (\<lambda>j::nat. if j = 0 then [] else map vector_id (take 50 vs))"
  have len: "length vs = 51" by (simp add: vs_def many_docs_def)
  have two: "length (slices 50 vs) = 2" by (simp add: length_slices len)
  have s0: "slices 50 vs ! 0 = take 50 vs" and s1: "slices 50 vs ! 1 = take 50 (drop 50 vs)"
    using slices_nth(1)[of 50 0 vs] slices_nth(1)[of 50 1 vs] two by simp_all
  have ne: "map vector_id (take 50 vs) \<noteq> []"
    using len by auto
  have b: "(\<forall>d \<in> set many_docs. encode store_full_services (line d) = Inr (length (line d)))
      \<and> 1 < length (slices 50 (map (vector_of length) many_docs)) \<and> st 0 = fst (([], []) :: string list \<times> nat event list)
      \<and> (\<forall>j < 1. index_upsert store_full_services (st j) (slices 50 (map (vector_of length) many_docs) ! j)
                    = Inr (st (Suc j)))
      \<and> index_upsert store_full_services (st 1) (slices 50 (map (vector_of length) many_docs) ! 1)
          = Inl (Exc ''PineconeException'' ''index unreachable'')"
    unfolding vs_def[symmetric] using two s0 s1 ne
    by (simp add: store_full_services_def st_def)
  have B: "respond (snd (push_docs store_full_services many_docs ([], []))) =
      \<lparr>status_code = 200, content = [(''error'', JStr (str_exc (Exc ''PineconeException'' ''index unreachable'')))]\<rparr>"
    by (rule G[THEN conjunct2, THEN conjunct2, THEN conjunct1, rule_format, OF b])
  have c: "generate_content failing_services (ats_prompt ''resume'' ''job'') =
      Inl (Exc ''ResourceExhausted'' ''quota exceeded'')"
    by (simp add: failing_services_def)
  have d: "index_delete failing_services (fst (([], []) :: string list \<times> nat event list)) =
      Inl (Exc ''PineconeException'' ''index unreachable'')"
    by (simp add: failing_services_def)
  have C: "respond (snd (api_ats_check failing_services ''resume'' ''job'' ([], []))) =
      \<lparr>status_code = 200, content = [(''error'', JStr (str_exc (Exc ''ResourceExhausted'' ''quota exceeded'')))]\<rparr>"
    by (rule F[THEN conjunct2, THEN conjunct2, THEN conjunct2, THEN conjunct2, THEN conjunct2,
        THEN conjunct1, rule_format, OF c])
  have D: "respond (snd (api_clear_pinecone failing_services ([], []))) =
      \<lparr>status_code = 200, content = [(''error'', JStr (str_exc (Exc ''PineconeException'' ''index unreachable'')))]\<rparr>"
    by (rule F[THEN conjunct2, THEN conjunct2, THEN conjunct2, THEN conjunct2, THEN conjunct2,
        THEN conjunct2, THEN conjunct2, rule_format, OF d])
  from A B C D show ?thesis by simp
qed

subsection \<open>\<open>generate_hash\<close>\<close>

text \<open>Whatever function stands for SHA-256, the digest is one of finitely many strings of
  64 hexadecimal digits, so \<open>generate_hash\<close> cannot be injective on the infinitely many texts.
  How hard a colliding pair is to find is a property of SHA-256 that this model, in which the
  digest function is a parameter, does not speak of.\<close>

lemma no_injective_digest: "\<not> inj (generate_hash sha256)"
proof
  assume inj: "inj (generate_hash sha256)"
  have "range (generate_hash sha256) \<subseteq> range hexdigest"
    by (auto simp: generate_hash_def)
  moreover have "finite (range hexdigest)" by simp
  ultimately have "finite (range (generate_hash sha256))"
    by (rule finite_subset)
  then have "finite (UNIV :: string set)"
    using inj by (rule finite_imageD)
  then show False by (simp add: infinite_UNIV_listI)
qed

lemma hex_digits16: "list_all (\<lambda>d. hex_digit d \<in> set ''0123456789abcdef'') [0..<16]"
  by code_simp

lemma hex_digit_range: "d < 16 \<Longrightarrow> hex_digit d \<in> set ''0123456789abcdef''"
  using hex_digits16 unfolding list_all_iff by (simp del: upt_Suc set_upt) simp

lemma hexdigest_chars: "set (hexdigest w) \<subseteq> set ''0123456789abcdef''"
proof
  fix c assume "c \<in> set (hexdigest w)"
  then obtain k where c: "c = hex_digit (unat (drop_bit (4 * (63 - k)) w) mod 16)"
    by (auto simp: hexdigest_def)
  have "unat (drop_bit (4 * (63 - k)) w) mod 16 < 16" by simp
  then show "c \<in> set ''0123456789abcdef''"
    unfolding c by (rule hex_digit_range)
qed

lemma length_generate_hash: "length (generate_hash sha256 text) = 64"
  by (simp add: generate_hash_def hexdigest_def)

lemma generate_hash_chars: "set (generate_hash sha256 text) \<subseteq> set ''0123456789abcdef''"
  unfolding generate_hash_def by (rule hexdigest_chars)

subsection \<open>Score extraction\<close>

lemma contains_sublist: "contains needle hay = sublist needle hay"
  by (induction hay) (simp_all add: sublist_Cons_right)

lemma first_elem_filter:
  "first_elem (filter P xs) =
     (case find P xs of None \<Rightarrow> Inl (Exc ''IndexError'' ''list index out of range'') | Some x \<Rightarrow> Inr x)"
  by (induction xs) (simp_all add: first_elem_def)

lemma foldl_decimal:
  "foldl (\<lambda>a c. 10 * a + digit_val c) a ds = a * 10 ^ length ds + base10 ds"
  by (induction ds arbitrary: a) (simp_all add: algebra_simps)

lemma decimal_value_base10: "decimal_value ds = base10 ds"
  by (simp add: decimal_value_def foldl_decimal)

lemma int_of_digits_cases:
  "int_of_digits max_digits ds =
     (if ds \<noteq> [] \<and> (\<forall>c \<in> set ds. is_decimal c) \<and> (max_digits = 0 \<or> length ds \<le> max_digits)
      then Inr (int (base10 ds))
      else Inl (Exc ''ValueError''
        (if ds = [] \<or> \<not> list_all is_decimal ds then ''invalid literal for int() with base 10''
         else ''Exceeds the limit for integer string conversion'')))"
  by (auto simp: int_of_digits_def decimal_value_base10 list_all_iff)

text \<open>
  C3. The extracted score is the specification's: the first line (of \<open>splitlines\<close>) that
  contains \<open>ATS Match Score\<close> is selected, all its digit characters are joined and read as
  one base-10 number; the score is 0 when no line contains the text or the digits do not parse.
  Whatever exception the body of the \<open>try\<close> raises, the score is 0.
\<close>

theorem extract_score_first_line:
  "extract_score max_digits report = spec_score max_digits report
   \<and> (\<forall>e. try_extract max_digits report = Inl e \<longrightarrow> extract_score max_digits report = 0)"
proof -
  have "contains ''ATS Match Score'' = sublist ''ATS Match Score''"
    by (rule ext) (rule contains_sublist)
  then have "extract_score max_digits report = spec_score max_digits report"
    by (auto simp: extract_score_def try_extract_def spec_score_def first_elem_filter
        int_of_digits_cases Let_def split: option.splits)
  moreover have "\<forall>e. try_extract max_digits report = Inl e \<longrightarrow> extract_score max_digits report = 0"
    by (simp add: extract_score_def)
  ultimately show ?thesis by blast
qed

lemma extract_score_nonneg: "0 \<le> extract_score max_digits report"
  by (simp add: extract_score_def try_extract_def int_of_digits_def split: sum.splits)

text \<open>The theorem at a report whose second line is the first to hold the text, and at one
  with no such line.\<close>

theorem extract_score_first_line_witness:
  "spec_score 4300 ''Report\<newline>2. ATS Match Score: 87.5%\<newline>ATS Match Score: 3'' = 2875
   \<and> spec_score 4300 ''No score in this report'' = 0"
proof -
  have a: "extract_score 4300 ''Report\<newline>2. ATS Match Score: 87.5%\<newline>ATS Match Score: 3'' = 2875"
    by code_simp
  have b: "extract_score 4300 ''No score in this report'' = 0"
    by code_simp
  show ?thesis
    using extract_score_first_line[of 4300 "''Report\<newline>2. ATS Match Score: 87.5%\<newline>ATS Match Score: 3''"]
      extract_score_first_line[of 4300 "''No score in this report''"] a b by simp
qed

text \<open>
  C4. On the report \<open>1. ATS Match Score: 87%\<close> the extraction joins the digit of the list
  number with the digits of the percentage: the score is 187.
\<close>

theorem extract_score_numbered_line: "extract_score 4300 ''1. ATS Match Score: 87%'' = 187"
  by code_simp

subsection \<open>The submit handler\<close>

lemma resume_loop_eq:
  "\<forall>f \<in> set files. extract (pdf f) = Inr (text_of f) \<Longrightarrow>
   \<forall>f \<in> set files. ats_check post (text_of f) jd_text = Inr (report_of f) \<Longrightarrow>
   resume_loop extract post max_digits jd_text files acc = Inr (acc @ map (result_of max_digits report_of) files)"
  by (induction files arbitrary: acc) (simp_all add: result_of_def)

lemma sort_reverse_mset: "mset (sort_reverse rs) = mset rs"
  by (simp add: sort_reverse_def)

lemma sort_reverse_length: "length (sort_reverse rs) = length rs"
  by (simp add: sort_reverse_def)

lemma sort_reverse_descending: "sorted_wrt (\<lambda>a b. score b \<le> score a) (sort_reverse rs)"
proof -
  have "sorted (map score (sort_key score (rev rs)))"
    by (rule sorted_sort_key)
  then have "sorted_wrt (\<lambda>a b. score a \<le> score b) (sort_key score (rev rs))"
    by (simp add: sorted_wrt_map)
  then show ?thesis
    by (simp add: sort_reverse_def sorted_wrt_rev)
qed

lemma sort_reverse_stable:
  "filter (\<lambda>r. score r = k) (sort_reverse rs) = filter (\<lambda>r. score r = k) rs"
  by (simp add: sort_reverse_def rev_filter[symmetric] sort_key_stable)

lemma sort_reverse_three:
  "score a = 40 \<Longrightarrow> score b = 90 \<Longrightarrow> score c = 65 \<Longrightarrow> sort_reverse [a, b, c] = [b, c, a]"
  by (simp add: sort_reverse_def)

text \<open>
  C5. When the form is submitted with a job description and at least one file, and the text
  extraction and the scoring call return for every file, the handler builds one Scoring
  Result per file and shows them sorted: the ranked list has one entry per file and the same
  entries as the results, scores descend, results with equal scores keep their submission
  order, and the first entry, which no entry outscores, is shown as the best. Three results
  scoring 40, 90, 65 are ranked 90, 65, 40.
\<close>

theorem submit_form_ranking:
  assumes "submitted" and "jd_text \<noteq> []" and "uploaded_files \<noteq> []"
    and "\<forall>f \<in> set uploaded_files. extract (pdf f) = Inr (text_of f)"
    and "\<forall>f \<in> set uploaded_files. ats_check post (text_of f) jd_text = Inr (report_of f)"
  shows "let results = map (result_of max_digits report_of) uploaded_files;
             ranked = sort_reverse results
         in (\<exists>best_resume rest. ranked = best_resume # rest
               \<and> submit_form extract post max_digits submitted jd_text uploaded_files
                   = Inr (Ranked best_resume ranked)
               \<and> (\<forall>r \<in> set ranked. score r \<le> score best_resume))
          \<and> length ranked = length uploaded_files
          \<and> mset ranked = mset results
          \<and> sorted_wrt (\<lambda>a b. score b \<le> score a) ranked
          \<and> (\<forall>k. filter (\<lambda>r. score r = k) ranked = filter (\<lambda>r. score r = k) results)
          \<and> (\<forall>a b c. score a = 40 \<and> score b = 90 \<and> score c = 65 \<longrightarrow>
                sort_reverse [a, b, c] = [b, c, a])"
proof -
  define results where "results = map (result_of max_digits report_of) uploaded_files"
  define ranked where "ranked = sort_reverse results"
  have loop: "resume_loop extract post max_digits jd_text uploaded_files [] = Inr results"
    using resume_loop_eq[OF assms(4,5), of max_digits "[]"] by (simp add: results_def)
  have ne: "results \<noteq> []"
    using assms(3) by (simp add: results_def)
  then have "ranked \<noteq> []"
    using sort_reverse_length[of results] by (auto simp: ranked_def)
  then obtain best_resume rest where br: "ranked = best_resume # rest"
    by (cases ranked) auto
  have run: "submit_form extract post max_digits submitted jd_text uploaded_files
      = Inr (Ranked best_resume ranked)"
    using assms(1,2,3) ne br
    by (simp add: submit_form_def loop ranked_def[symmetric] first_elem_def)
  have desc: "sorted_wrt (\<lambda>a b. score b \<le> score a) ranked"
    unfolding ranked_def by (rule sort_reverse_descending)
  have top: "\<forall>r \<in> set ranked. score r \<le> score best_resume"
    using desc br by auto
  have three: "\<forall>a b c. score a = 40 \<and> score b = 90 \<and> score c = 65 \<longrightarrow>
      sort_reverse [a, b, c] = [b, c, a]"
    by (simp add: sort_reverse_three)
  have len: "length ranked = length uploaded_files"
    by (simp add: ranked_def sort_reverse_length results_def)
  have ms: "mset ranked = mset results"
    by (simp add: ranked_def sort_reverse_mset)
  have st: "\<forall>k. filter (\<lambda>r. score r = k) ranked = filter (\<lambda>r. score r = k) results"
    by (simp add: ranked_def sort_reverse_stable)
  show ?thesis
    unfolding Let_def results_def[symmetric] ranked_def[symmetric]
    using br run top len ms desc st three by blast
qed

text \<open>The theorem at three resumes whose reports score 40, 90 and 65.\<close>

theorem submit_form_ranking_witness:
  "submit_form example_extract example_post 4300 True ''Data Scientist'' example_files =
     Inr (Ranked \<lparr>result_filename = ''b.pdf'', score = 90, output_text = ''ATS Match Score: 90%''\<rparr>
       [\<lparr>result_filename = ''b.pdf'', score = 90, output_text = ''ATS Match Score: 90%''\<rparr>,
        \<lparr>result_filename = ''c.pdf'', score = 65, output_text = ''ATS Match Score: 65%''\<rparr>,
        \<lparr>result_filename = ''a.pdf'', score = 40, output_text = ''ATS Match Score: 40%''\<rparr>])"
proof -
  have h1: "\<forall>f \<in> set example_files. example_extract (pdf f) = Inr (pdf f)"
    by (simp add: example_files_def example_extract_def)
  have h2: "\<forall>f \<in> set example_files.
      ats_check example_post (pdf f) ''Data Scientist'' = Inr (example_report f)"
    by (simp add: example_files_def ats_check_def example_post_def example_report_def)
  have e: "sort_reverse (map (result_of 4300 example_report) example_files) =
       [\<lparr>result_filename = ''b.pdf'', score = 90, output_text = ''ATS Match Score: 90%''\<rparr>,
        \<lparr>result_filename = ''c.pdf'', score = 65, output_text = ''ATS Match Score: 65%''\<rparr>,
        \<lparr>result_filename = ''a.pdf'', score = 40, output_text = ''ATS Match Score: 40%''\<rparr>]"
    by code_simp
  have ne: "example_files \<noteq> []" by (simp add: example_files_def)
  show ?thesis
    using submit_form_ranking[OF _ _ ne h1 h2, of True 4300] unfolding Let_def e by simp
qed

lemma resume_loop_inv:
  "resume_loop extract post max_digits jd_text files acc = Inr results \<Longrightarrow>
   \<forall>r \<in> set acc. score r = extract_score max_digits (output_text r) \<Longrightarrow>
   \<forall>r \<in> set results. score r = extract_score max_digits (output_text r)"
  by (induction files arbitrary: acc) (auto split: sum.splits)

text \<open>A report that states 150 percent gives a Scoring Result with score 150.\<close>

theorem scoring_result_above_100:
  "resume_loop example_extract example_post 4300 ''Data Scientist''
      [\<lparr>name = ''cv.pdf'', pdf = ''150''\<rparr>] [] =
     Inr [\<lparr>result_filename = ''cv.pdf'', score = 150, output_text = ''ATS Match Score: 150%''\<rparr>]
   \<and> \<not> score \<lparr>result_filename = ''cv.pdf'', score = 150, output_text = ''ATS Match Score: 150%''\<rparr> \<le> 100"
proof -
  have "resume_loop example_extract example_post 4300 ''Data Scientist''
      [\<lparr>name = ''cv.pdf'', pdf = ''150''\<rparr>] [] =
     Inr [\<lparr>result_filename = ''cv.pdf'', score = 150, output_text = ''ATS Match Score: 150%''\<rparr>]"
    by code_simp
  then show ?thesis by simp
qed

text \<open>
  C6. The score of every Scoring Result the loop builds is an integer that is not
  negative, and it is 0 when the extraction fails.
\<close>

theorem scoring_result_score_nonneg:
  assumes "resume_loop extract post max_digits jd_text files [] = Inr results"
  shows "\<forall>r \<in> set results. 0 \<le> score r
           \<and> (\<forall>e. try_extract max_digits (output_text r) = Inl e \<longrightarrow> score r = 0)"
proof
  fix r assume "r \<in> set results"
  with resume_loop_inv[OF assms] have "score r = extract_score max_digits (output_text r)" by simp
  then show "0 \<le> score r \<and> (\<forall>e. try_extract max_digits (output_text r) = Inl e \<longrightarrow> score r = 0)"
    using extract_score_nonneg[of max_digits "output_text r"] by (simp add: extract_score_def)
qed

text \<open>The theorem at two resumes, the first of which the backend could not score.\<close>

theorem scoring_result_score_nonneg_witness:
  "resume_loop example_extract example_post 4300 ''Data Scientist''
      [\<lparr>name = ''x.pdf'', pdf = ''offline''\<rparr>, \<lparr>name = ''y.pdf'', pdf = ''72''\<rparr>] [] =
     Inr [\<lparr>result_filename = ''x.pdf'', score = 0, output_text = ''Error occurred during ATS check.''\<rparr>,
          \<lparr>result_filename = ''y.pdf'', score = 72, output_text = ''ATS Match Score: 72%''\<rparr>]
   \<and> list_all (\<lambda>r. 0 \<le> score r)
        [\<lparr>result_filename = ''x.pdf'', score = 0, output_text = ''Error occurred during ATS check.''\<rparr>,
         \<lparr>result_filename = ''y.pdf'', score = 72, output_text = ''ATS Match Score: 72%''\<rparr>]"
proof -
  have run: "resume_loop example_extract example_post 4300 ''Data Scientist''
      [\<lparr>name = ''x.pdf'', pdf = ''offline''\<rparr>, \<lparr>name = ''y.pdf'', pdf = ''72''\<rparr>] [] =
     Inr [\<lparr>result_filename = ''x.pdf'', score = 0, output_text = ''Error occurred during ATS check.''\<rparr>,
          \<lparr>result_filename = ''y.pdf'', score = 72, output_text = ''ATS Match Score: 72%''\<rparr>]"
    by code_simp
  from scoring_result_score_nonneg[OF run] show ?thesis
    using run by (simp add: list_all_iff)
qed

text \<open>
  C8. A resume whose text extraction raises ends the whole submission with that exception:
  the resume after it is not processed and nothing is ranked. A resume whose scoring call
  fails is kept, with score 0.
\<close>

theorem submit_form_pdf_failure:
  "submit_form example_extract example_post 4300 True ''Data Scientist''
      [\<lparr>name = ''bad.pdf'', pdf = ''%broken''\<rparr>, \<lparr>name = ''good.pdf'', pdf = ''90''\<rparr>]
     = Inl (Exc ''PDFSyntaxError'' ''No /Root object'')
   \<and> submit_form example_extract example_post 4300 True ''Data Scientist''
      [\<lparr>name = ''x.pdf'', pdf = ''offline''\<rparr>, \<lparr>name = ''y.pdf'', pdf = ''72''\<rparr>]
     = Inr (Ranked \<lparr>result_filename = ''y.pdf'', score = 72, output_text = ''ATS Match Score: 72%''\<rparr>
         [\<lparr>result_filename = ''y.pdf'', score = 72, output_text = ''ATS Match Score: 72%''\<rparr>,
          \<lparr>result_filename = ''x.pdf'', score = 0, output_text = ''Error occurred during ATS check.''\<rparr>])"
  by code_simp

end
